theory Spec2Isabelle
  imports
    Main
    "HOL-Library.Sublist"
    "HOL-Library.AList"
    "HOL-Library.Multiset"
    "HOL-Library.Product_Lexorder"
    "HOL-Library.List_Lexorder"
begin

section \<open>Errors and configuration\<close>

text \<open>
  The Python exceptions that the modelled functions can raise. A function that may raise
  returns \<open>py_error + 'a\<close>, with \<open>Inl\<close> for the exception.
\<close>

datatype py_error = KeyError | ValueError | StopIteration

text \<open>\<^verbatim>\<open>MAX_NORMAL_RECORDS = 10\<close>, \<^verbatim>\<open>MAX_ERROR_LOGS = 20\<close>.\<close>

definition MAX_NORMAL_RECORDS :: nat where
  "MAX_NORMAL_RECORDS = 10"

definition MAX_ERROR_LOGS :: nat where
  "MAX_ERROR_LOGS = 20"

text \<open>
  \<^verbatim>\<open>PRIZE_TABLE\<close>: a dict literal, kept as the association list of its items in
  insertion order; a lookup is \<open>map_of PRIZE_TABLE\<close>.
\<close>

definition PRIZE_TABLE :: "(nat \<times> int) list" where
  "PRIZE_TABLE =
     [(1, 10000000), (2, 300000), (3, 10000), (4, 3000), (5, 300),
      (6, 200), (7, 100), (8, 15), (9, 5)]"

section \<open>Prize calculation\<close>

text \<open>
  A ticket is a pair of integer lists (front, back). A winner's detail is the dict
  \<^verbatim>\<open>{'front': front, 'back': back, 'level': level}\<close>.
\<close>

type_synonym ticket = "int list \<times> int list"

record winning_ticket =
  wt_front :: "int list"
  wt_back :: "int list"
  wt_level :: nat

text \<open>\<^verbatim>\<open>len(set(xs) & prize_set)\<close>\<close>

definition hits :: "int list \<Rightarrow> int list \<Rightarrow> nat" where
  "hits xs prize = card (set xs \<inter> set prize)"

text \<open>
  The \<^verbatim>\<open>if\<close>/\<^verbatim>\<open>elif\<close> chain of \<^verbatim>\<open>calculate_prize\<close>, in the order of the source;
  \<open>None\<close> is the initial \<^verbatim>\<open>level = None\<close> that no branch overwrites.
\<close>

definition level_of :: "nat \<Rightarrow> nat \<Rightarrow> nat option" where
  "level_of front_hits back_hits =
     (if front_hits = 5 \<and> back_hits = 2 then Some 1
      else if front_hits = 5 \<and> back_hits = 1 then Some 2
      else if front_hits = 5 \<and> back_hits = 0 then Some 3
      else if front_hits = 4 \<and> back_hits = 2 then Some 4
      else if front_hits = 4 \<and> back_hits = 1 then Some 5
      else if front_hits = 3 \<and> back_hits = 2 then Some 6
      else if front_hits = 4 \<and> back_hits = 0 then Some 7
      else if front_hits = 3 \<and> back_hits = 1 then Some 8
      else if (front_hits = 2 \<and> back_hits = 2) \<or> (front_hits = 3 \<and> back_hits = 0)
              \<or> (front_hits = 1 \<and> back_hits = 2) \<or> (front_hits = 2 \<and> back_hits = 1)
              \<or> (front_hits = 0 \<and> back_hits = 2) then Some 9
      else None)"

text \<open>The three accumulators of \<^verbatim>\<open>calculate_prize\<close>.\<close>

record prize_state =
  total_prize :: int
  breakdown :: "nat \<rightharpoonup> nat"
  winning_tickets_details :: "winning_ticket list"

text \<open>\<^verbatim>\<open>breakdown = {level: 0 for level in PRIZE_TABLE}\<close>, empty total and details.\<close>

definition initial_prize_state :: prize_state where
  "initial_prize_state =
     \<lparr> total_prize = 0,
       breakdown = map_of (map (\<lambda>(level, amount). (level, 0)) PRIZE_TABLE),
       winning_tickets_details = [] \<rparr>"

text \<open>
  One iteration of the loop over the tickets. \<^verbatim>\<open>if level and level in PRIZE_TABLE\<close>
  is the truthiness of the level (not \<^verbatim>\<open>None\<close>, not 0) and the membership test;
  \<^verbatim>\<open>breakdown[level] += 1\<close> raises \<^verbatim>\<open>KeyError\<close> on a missing key.
\<close>

definition score_ticket ::
  "int list \<Rightarrow> int list \<Rightarrow> prize_state \<Rightarrow> ticket \<Rightarrow> py_error + prize_state" where
  "score_ticket prize_front prize_back st t =
     (let front_hits = hits (fst t) prize_front;
          back_hits = hits (snd t) prize_back
      in case level_of front_hits back_hits of
           None \<Rightarrow> Inr st
         | Some level \<Rightarrow>
             (if level = 0 then Inr st
              else case map_of PRIZE_TABLE level of
                     None \<Rightarrow> Inr st
                   | Some prize_amount \<Rightarrow>
                       (case breakdown st level of
                          None \<Rightarrow> Inl KeyError
                        | Some c \<Rightarrow>
                            Inr \<lparr> total_prize = total_prize st + prize_amount,
                                  breakdown = (breakdown st)(level \<mapsto> c + 1),
                                  winning_tickets_details =
                                    winning_tickets_details st @
                                      [\<lparr> wt_front = fst t, wt_back = snd t,
                                         wt_level = level \<rparr>] \<rparr>)))"

fun score_tickets ::
  "int list \<Rightarrow> int list \<Rightarrow> prize_state \<Rightarrow> ticket list \<Rightarrow> py_error + prize_state" where
  "score_tickets prize_front prize_back st [] = Inr st"
| "score_tickets prize_front prize_back st (t # ts) =
     (case score_ticket prize_front prize_back st t of
        Inl e \<Rightarrow> Inl e
      | Inr st' \<Rightarrow> score_tickets prize_front prize_back st' ts)"

definition calculate_prize ::
  "ticket list \<Rightarrow> int list \<Rightarrow> int list \<Rightarrow> py_error + prize_state" where
  "calculate_prize tickets prize_front prize_back =
     score_tickets prize_front prize_back initial_prize_state tickets"

subsection \<open>The tier table of the specification\<close>

text \<open>
  The table of the specification, as written there: pair of hit counts, then tier.
  A pair that is not in the table wins no prize.
\<close>

definition spec_tier_table :: "((nat \<times> nat) \<times> nat) list" where
  "spec_tier_table =
     [((5, 2), 1), ((5, 1), 2), ((5, 0), 3), ((4, 2), 4), ((4, 1), 5), ((3, 2), 6),
      ((4, 0), 7), ((3, 1), 8),
      ((2, 2), 9), ((3, 0), 9), ((1, 2), 9), ((2, 1), 9), ((0, 2), 9)]"

definition spec_tier :: "nat \<Rightarrow> nat \<Rightarrow> nat option" where
  "spec_tier front_hits back_hits = map_of spec_tier_table (front_hits, back_hits)"

text \<open>The tier of a ticket against a draw, and the amount the specification gives it.\<close>

definition ticket_tier :: "int list \<Rightarrow> int list \<Rightarrow> ticket \<Rightarrow> nat option" where
  "ticket_tier prize_front prize_back t =
     spec_tier (hits (fst t) prize_front) (hits (snd t) prize_back)"

definition tier_amount :: "nat option \<Rightarrow> int" where
  "tier_amount tier =
     (case tier of
        None \<Rightarrow> 0
      | Some l \<Rightarrow> (case map_of PRIZE_TABLE l of None \<Rightarrow> 0 | Some a \<Rightarrow> a))"

definition tier_count :: "int list \<Rightarrow> int list \<Rightarrow> ticket list \<Rightarrow> nat \<Rightarrow> nat" where
  "tier_count prize_front prize_back tickets l =
     length (filter (\<lambda>t. ticket_tier prize_front prize_back t = Some l) tickets)"

definition tiers :: "nat list" where
  "tiers = [1, 2, 3, 4, 5, 6, 7, 8, 9]"

text \<open>The detail record the source appends for a ticket of a given tier.\<close>

definition detail_of :: "ticket \<Rightarrow> nat \<Rightarrow> winning_ticket" where
  "detail_of t l = \<lparr> wt_front = fst t, wt_back = snd t, wt_level = l \<rparr>"

definition details_of :: "int list \<Rightarrow> int list \<Rightarrow> ticket list \<Rightarrow> winning_ticket list" where
  "details_of prize_front prize_back tickets =
     concat (map (\<lambda>t. case ticket_tier prize_front prize_back t of
                         None \<Rightarrow> []
                       | Some l \<Rightarrow> [detail_of t l]) tickets)"

section \<open>Expansion of a complex pool\<close>

text \<open>
  \<^verbatim>\<open>itertools.combinations(xs, k)\<close>: the \<open>k\<close>-element subsequences of \<open>xs\<close>, chosen by
  position, in lexicographic order of the positions.
\<close>

fun combinations :: "'a list \<Rightarrow> nat \<Rightarrow> 'a list list" where
  "combinations xs 0 = [[]]"
| "combinations [] (Suc k) = []"
| "combinations (x # xs) (Suc k) =
     map ((#) x) (combinations xs k) @ combinations xs (Suc k)"

text \<open>\<^verbatim>\<open>math.comb(n, k)\<close>: the binomial coefficient.\<close>

definition comb :: "nat \<Rightarrow> nat \<Rightarrow> nat" where
  "comb n k = n choose k"

text \<open>
  The fallback \<^verbatim>\<open>combinations_count\<close> of the \<^verbatim>\<open>except ImportError\<close> branch:
  \<^verbatim>\<open>for i in range(k): res = res * (n - i) // (i + 1)\<close>, after the early returns and
  the replacement of \<open>k\<close> by \<open>n - k\<close>. Both arguments are lengths or the constants 5
  and 2, so \<^verbatim>\<open>k < 0\<close> never holds.
\<close>

fun combinations_count_loop :: "nat \<Rightarrow> nat list \<Rightarrow> nat \<Rightarrow> nat" where
  "combinations_count_loop n [] res = res"
| "combinations_count_loop n (i # is) res =
     combinations_count_loop n is (res * (n - i) div (i + 1))"

definition combinations_count :: "nat \<Rightarrow> nat \<Rightarrow> nat" where
  "combinations_count n k =
     (if k > n then 0
      else if k = 0 \<or> k = n then 1
      else let k' = (if k > n div 2 then n - k else k)
           in combinations_count_loop n [0..<k'] 1)"

text \<open>\<^verbatim>\<open>max_tickets_limit = 20000\<close>\<close>

definition max_tickets_limit :: nat where
  "max_tickets_limit = 20000"

text \<open>
  The list comprehension over \<^verbatim>\<open>combinations(fronts, 5)\<close> and
  \<^verbatim>\<open>combinations(backs, 2)\<close>, each combination sorted.
\<close>

definition expand_tickets :: "int list \<Rightarrow> int list \<Rightarrow> ticket list" where
  "expand_tickets fronts backs =
     concat (map (\<lambda>f_combo. map (\<lambda>b_combo. (sort f_combo, sort b_combo))
                                (combinations backs 2))
                 (combinations fronts 5))"

text \<open>
  \<^verbatim>\<open>generate_complex_tickets\<close>. The flag \<open>math_comb\<close> says whether
  \<^verbatim>\<open>from math import comb\<close> succeeds (the \<^verbatim>\<open>try\<close> branch) or raises
  \<^verbatim>\<open>ImportError\<close> (the fallback branch). Nothing else in the body raises on lists of
  integers, so the last \<^verbatim>\<open>except Exception\<close> branch is never taken.
\<close>

definition generate_complex_tickets :: "bool \<Rightarrow> int list \<Rightarrow> int list \<Rightarrow> ticket list" where
  "generate_complex_tickets math_comb fronts backs =
     (if length fronts < 5 \<or> length backs < 2 then []
      else let num_combs =
                 (if math_comb then comb (length fronts) 5 * comb (length backs) 2
                  else combinations_count (length fronts) 5 * combinations_count (length backs) 2)
           in if num_combs > max_tickets_limit then []
              else expand_tickets fronts backs)"

section \<open>Python strings and the draw records of the CSV rows\<close>

text \<open>
  A Python \<^verbatim>\<open>str\<close> is the list of its code points. \<open>ascii\<close> turns a literal of
  the theory into such a list.
\<close>

type_synonym pystr = "nat list"

definition ascii :: "string \<Rightarrow> pystr" where
  "ascii s = map of_char s"

text \<open>
  The white space of \<^verbatim>\<open>str.strip\<close>, \<^verbatim>\<open>str.split\<close>, \<^verbatim>\<open>int\<close> and of \<^verbatim>\<open>\s\<close> in a
  pattern on \<^verbatim>\<open>str\<close>: the code points for which \<^verbatim>\<open>str.isspace\<close> holds.
\<close>

definition is_space :: "nat \<Rightarrow> bool" where
  "is_space c \<longleftrightarrow>
     (9 \<le> c \<and> c \<le> 13) \<or> (28 \<le> c \<and> c \<le> 32) \<or> c = 133 \<or> c = 160 \<or> c = 5760
     \<or> (8192 \<le> c \<and> c \<le> 8202) \<or> c = 8232 \<or> c = 8233 \<or> c = 8239 \<or> c = 8287
     \<or> c = 12288"

text \<open>
  The decimal digits \<^verbatim>\<open>0\<close> to \<^verbatim>\<open>9\<close>. Python's \<^verbatim>\<open>\d\<close> and \<^verbatim>\<open>int\<close> also take the
  decimal digits of other scripts; the model reads those as characters that are not
  digits.
\<close>

definition is_digit :: "nat \<Rightarrow> bool" where
  "is_digit c \<longleftrightarrow> 48 \<le> c \<and> c \<le> 57"

text \<open>
  \<^verbatim>\<open>s.strip()\<close>
\<close>

definition strip :: "pystr \<Rightarrow> pystr" where
  "strip s = rev (dropWhile is_space (rev (dropWhile is_space s)))"



text \<open>
  \<^verbatim>\<open>int(s)\<close> on a \<^verbatim>\<open>str\<close>, base 10: white space around is dropped, one sign is
  allowed, then digits, where one underscore may stand between two digits. \<open>None\<close> is
  \<^verbatim>\<open>ValueError\<close>. The flag of \<open>parse_digits\<close> says that the previous character was a
  digit.
\<close>

fun parse_digits :: "bool \<Rightarrow> nat \<Rightarrow> pystr \<Rightarrow> nat option" where
  "parse_digits prev acc [] = (if prev then Some acc else None)"
| "parse_digits prev acc (c # cs) =
     (if is_digit c then parse_digits True (acc * 10 + (c - 48)) cs
      else if c = 95 \<and> prev then parse_digits False acc cs
      else None)"

definition py_int :: "pystr \<Rightarrow> int option" where
  "py_int s =
     (case strip s of
        [] \<Rightarrow> None
      | c # cs \<Rightarrow>
          if c = 45 then map_option (\<lambda>n. - int n) (parse_digits False 0 cs)
          else if c = 43 then map_option int (parse_digits False 0 cs)
          else map_option int (parse_digits False 0 (c # cs)))"




















section \<open>Recommendations of a report\<close>

text \<open>
  \<^verbatim>\<open>s.split()\<close>: the maximal pieces without white space, none of them empty.
\<close>

fun split_ws_from :: "pystr \<Rightarrow> pystr \<Rightarrow> pystr list" where
  "split_ws_from cur [] = (if cur = [] then [] else [cur])"
| "split_ws_from cur (c # cs) =
     (if is_space c then (if cur = [] then split_ws_from [] cs else cur # split_ws_from [] cs)
      else split_ws_from (cur @ [c]) cs)"

definition split_ws :: "pystr \<Rightarrow> pystr list" where
  "split_ws s = split_ws_from [] s"

text \<open>
  The regular expressions of the source as lists of tokens, matched from left to right:
  \<open>Lit l\<close> is the literal text \<open>l\<close>, \<open>Spaces\<close> is \<^verbatim>\<open>\s*\<close>, \<open>Digits\<close> is \<^verbatim>\<open>\d+\<close>,
  \<open>CapDigits\<close> is the group \<^verbatim>\<open>(\d+)\<close>, \<open>CapNums\<close> is the group \<^verbatim>\<open>([\d\s]+)\<close>,
  \<open>SpacesCapNums\<close> is \<^verbatim>\<open>\s*([\d\s]+)\<close>, \<open>CapStamp\<close> is the group \<^verbatim>\<open>(\d{8}_\d{6})\<close> and
  \<open>End\<close> is \<^verbatim>\<open>$\<close>. In every pattern of the source a repetition is followed by a
  character outside its class, so the longest repetition is the only one that can match
  and no backtracking is needed; the one exception is \<^verbatim>\<open>\s*([\d\s]+)\<close>, where the white
  space gives back its last character when nothing else is left for the group.
\<close>

datatype tok =
    Lit pystr
  | Spaces
  | Digits
  | CapDigits
  | CapNums
  | SpacesCapNums
  | CapStamp
  | End

text \<open>
  The class \<^verbatim>\<open>[\d\s]\<close>.
\<close>

definition is_num_char :: "nat \<Rightarrow> bool" where
  "is_num_char c \<longleftrightarrow> is_digit c \<or> is_space c"

text \<open>
  \<open>match_toks ts s\<close> matches the pattern at the start of \<open>s\<close>: the groups in order and
  the text left after the match, or \<open>None\<close>.
\<close>

definition with_group :: "pystr \<Rightarrow> (pystr list \<times> pystr) option \<Rightarrow> (pystr list \<times> pystr) option" where
  "with_group g m = map_option (\<lambda>m. (g # fst m, snd m)) m"

fun match_toks :: "tok list \<Rightarrow> pystr \<Rightarrow> (pystr list \<times> pystr) option" where
  "match_toks [] s = Some ([], s)"
| "match_toks (Lit l # ts) s =
     (if prefix l s then match_toks ts (drop (length l) s) else None)"
| "match_toks (Spaces # ts) s = match_toks ts (dropWhile is_space s)"
| "match_toks (Digits # ts) s =
     (if takeWhile is_digit s = [] then None else match_toks ts (dropWhile is_digit s))"
| "match_toks (CapDigits # ts) s =
     (if takeWhile is_digit s = [] then None
      else with_group (takeWhile is_digit s) (match_toks ts (dropWhile is_digit s)))"
| "match_toks (CapNums # ts) s =
     (if takeWhile is_num_char s = [] then None
      else with_group (takeWhile is_num_char s) (match_toks ts (dropWhile is_num_char s)))"
| "match_toks (SpacesCapNums # ts) s =
     (let run = takeWhile is_num_char s; body = dropWhile is_space run
      in if run = [] then None
         else with_group (if body = [] then [last run] else body)
                (match_toks ts (dropWhile is_num_char s)))"
| "match_toks (CapStamp # ts) s =
     (let g = take 15 s
      in if length g = 15 \<and> list_all is_digit (take 8 g) \<and> g ! 8 = 95
            \<and> list_all is_digit (drop 9 g)
         then with_group g (match_toks ts (drop 15 s))
         else None)"
| "match_toks (End # ts) s = (if s = [] \<or> s = [10] then match_toks ts s else None)"

text \<open>
  \<^verbatim>\<open>re.search\<close>: the groups of the match at the leftmost position where the pattern
  matches.
\<close>

fun re_search :: "tok list \<Rightarrow> pystr \<Rightarrow> pystr list option" where
  "re_search ts [] = map_option fst (match_toks ts [])"
| "re_search ts (c # cs) =
     (case match_toks ts (c # cs) of
        Some m \<Rightarrow> Some (fst m)
      | None \<Rightarrow> re_search ts cs)"

text \<open>
  \<^verbatim>\<open>pattern.finditer\<close>: the matches from left to right, each search starting where the
  previous match ended. \<open>skip\<close> counts the characters still covered by the last match.
\<close>

fun finditer_from :: "tok list \<Rightarrow> nat \<Rightarrow> pystr \<Rightarrow> pystr list list" where
  "finditer_from ts skip [] =
     (if skip = 0 then (case match_toks ts [] of Some m \<Rightarrow> [fst m] | None \<Rightarrow> []) else [])"
| "finditer_from ts skip (c # cs) =
     (if skip > 0 then finditer_from ts (skip - 1) cs
      else case match_toks ts (c # cs) of
             Some m \<Rightarrow> fst m # finditer_from ts (length (c # cs) - length (snd m) - 1) cs
           | None \<Rightarrow> finditer_from ts 0 cs)"

definition finditer :: "tok list \<Rightarrow> pystr \<Rightarrow> pystr list list" where
  "finditer ts s = finditer_from ts 0 s"

text \<open>
  The pattern of a discrete ticket (27880 is the character of the entry label, 21069 21306
  the front zone, 21518 21306 the back zone), and the pattern of a pool declaration for a
  zone \<^verbatim>\<open>(Top N):\<close>.
\<close>

definition rec_pattern :: "tok list" where
  "rec_pattern =
     [Lit [27880], Spaces, Digits, Lit (ascii '':''), Spaces, Lit [21069, 21306], Spaces,
      Lit (ascii ''[''), CapNums, Lit (ascii '']''), Spaces, Lit [21518, 21306], Spaces,
      Lit (ascii ''[''), CapNums, Lit (ascii '']'')]"

definition complex_pattern :: "pystr \<Rightarrow> tok list" where
  "complex_pattern zone =
     [Lit zone, Spaces, Lit (ascii ''(Top''), Spaces, Digits, Lit (ascii ''):''),
      SpacesCapNums]"

text \<open>
  \<^verbatim>\<open>sorted(map(int, g.split()))\<close>
\<close>

definition sorted_ints :: "pystr \<Rightarrow> py_error + int list" where
  "sorted_ints g =
     (case those (map py_int (split_ws g)) of
        None \<Rightarrow> Inl ValueError
      | Some ns \<Rightarrow> Inr (sort ns))"

text \<open>
  The body of the loop over the matches: \<open>None\<close> is a match that adds no ticket, by the
  \<^verbatim>\<open>except ValueError: continue\<close> or by the test of the two lengths.
\<close>

definition rec_ticket :: "pystr list \<Rightarrow> ticket option" where
  "rec_ticket groups =
     (case sorted_ints (groups ! 0) of
        Inl e \<Rightarrow> None
      | Inr fronts \<Rightarrow>
          (case sorted_ints (groups ! 1) of
             Inl e \<Rightarrow> None
           | Inr backs \<Rightarrow>
               if length fronts = 5 \<and> length backs = 2 then Some (fronts, backs) else None))"

text \<open>
  The pool of a zone: empty without a match, and left empty by \<^verbatim>\<open>except ValueError: pass\<close>.
\<close>

definition complex_numbers :: "pystr \<Rightarrow> pystr \<Rightarrow> int list" where
  "complex_numbers zone content =
     (case re_search (complex_pattern zone) content of
        None \<Rightarrow> []
      | Some groups \<Rightarrow>
          (case sorted_ints (groups ! 0) of Inl e \<Rightarrow> [] | Inr ns \<Rightarrow> ns))"

text \<open>
  \<^verbatim>\<open>parse_recommendations_from_report\<close>
\<close>

definition parse_recommendations_from_report ::
  "pystr \<Rightarrow> ticket list \<times> int list \<times> int list" where
  "parse_recommendations_from_report content =
     (let rec_tickets = List.map_filter rec_ticket (finditer rec_pattern content);
          complex_fronts = complex_numbers [21069, 21306] content;
          complex_backs = complex_numbers [21518, 21306] content
      in (rec_tickets, complex_fronts, complex_backs))"

text \<open>
  The steps of \<^verbatim>\<open>main_process\<close> from the parsed report to the two calls of
  \<^verbatim>\<open>calculate_prize\<close>: the tickets and the pools go on as they were parsed.
\<close>

definition score_recommendations ::
  "pystr \<Rightarrow> int list \<Rightarrow> int list \<Rightarrow> (py_error + prize_state) \<times> (py_error + prize_state)" where
  "score_recommendations report_content prize_front prize_back =
     (let (rec_tickets, complex_fronts, complex_backs) =
            parse_recommendations_from_report report_content;
          complex_tickets = generate_complex_tickets True complex_fronts complex_backs
      in (calculate_prize rec_tickets prize_front prize_back,
          calculate_prize complex_tickets prize_front prize_back))"

text \<open>
  A report text: two ticket lines (the second with four front numbers), pool declarations
  for the front and the back zone, and a second front pool declaration.
\<close>

definition example_report :: pystr where
  "example_report =
     [27880] @ ascii '' 1: '' @ [21069, 21306] @ ascii '' [01 02 03 03 99] '' @ [21518, 21306]
       @ ascii '' [06 06]'' @ [10]
     @ [27880] @ ascii '' 2: '' @ [21069, 21306] @ ascii '' [01 02 03 04] '' @ [21518, 21306]
       @ ascii '' [06 07]'' @ [10]
     @ [21069, 21306] @ ascii '' (Top 6): 1 1 2 3 4 36'' @ [10]
     @ [21518, 21306] @ ascii '' (Top 3): 0 12 12'' @ [10]
     @ [21069, 21306] @ ascii '' (Top 5): 1 2 3 4 5'' @ [10]"

text \<open>
  The words of the specification: the numbers of a group if all of them parse, the ticket
  of a line, and the pool of the first declaration of a zone.
\<close>

definition numbers :: "pystr \<Rightarrow> int list option" where
  "numbers g = those (map py_int (split_ws g))"

definition line_ticket :: "pystr list \<Rightarrow> ticket option" where
  "line_ticket groups =
     (case numbers (groups ! 0) of
        None \<Rightarrow> None
      | Some f \<Rightarrow>
          (case numbers (groups ! 1) of
             None \<Rightarrow> None
           | Some b \<Rightarrow> if length f = 5 \<and> length b = 2 then Some (sort f, sort b) else None))"



section \<open>Finding the report of a period\<close>














section \<open>Proofs: prize calculation\<close>

lemma level_of_spec_tier: "level_of f b = spec_tier f b"
  by (simp add: level_of_def spec_tier_def spec_tier_table_def)

lemma spec_tier_range: "spec_tier f b = Some l \<Longrightarrow> 1 \<le> l \<and> l \<le> 9"
  by (auto simp: spec_tier_def spec_tier_table_def split: if_splits)

lemma prize_table_dom: "1 \<le> l \<Longrightarrow> l \<le> 9 \<Longrightarrow> \<exists>a. map_of PRIZE_TABLE l = Some a"
proof -
  assume "1 \<le> l" "l \<le> 9"
  then have "l \<in> {1, 2, 3, 4, 5, 6, 7, 8, 9}" by auto
  then show ?thesis by (auto simp: PRIZE_TABLE_def)
qed

lemma score_ticket_step:
  assumes "\<And>l. 1 \<le> l \<Longrightarrow> l \<le> 9 \<Longrightarrow> breakdown st l \<noteq> None"
  shows "score_ticket pf pb st t =
     (case ticket_tier pf pb t of
        None \<Rightarrow> Inr st
      | Some l \<Rightarrow> Inr \<lparr> total_prize = total_prize st + tier_amount (Some l),
                 breakdown = (breakdown st)(l \<mapsto> the (breakdown st l) + 1),
                 winning_tickets_details = winning_tickets_details st @ [detail_of t l] \<rparr>)"
proof (cases "ticket_tier pf pb t")
  case None
  then show ?thesis
    by (simp add: score_ticket_def ticket_tier_def level_of_spec_tier)
next
  case (Some l)
  then have tier: "spec_tier (hits (fst t) pf) (hits (snd t) pb) = Some l"
    by (simp add: ticket_tier_def)
  from spec_tier_range[OF tier] have r: "1 \<le> l" "l \<le> 9" by auto
  from prize_table_dom[OF r] obtain a where a: "map_of PRIZE_TABLE l = Some a" by blast
  from assms[OF r] obtain c where c: "breakdown st l = Some c" by blast
  from r have "l \<noteq> 0" by simp
  then show ?thesis using Some tier a c
    by (simp add: score_ticket_def level_of_spec_tier tier_amount_def detail_of_def)
qed

lemma score_tickets_general:
  assumes "\<And>l. 1 \<le> l \<Longrightarrow> l \<le> 9 \<Longrightarrow> breakdown st l \<noteq> None"
  shows "score_tickets pf pb st ts =
     Inr \<lparr> total_prize = total_prize st + (\<Sum>t\<leftarrow>ts. tier_amount (ticket_tier pf pb t)),
           breakdown = (\<lambda>l. map_option (\<lambda>c. c + tier_count pf pb ts l) (breakdown st l)),
           winning_tickets_details = winning_tickets_details st @ details_of pf pb ts \<rparr>"
  using assms
proof (induction ts arbitrary: st)
  case Nil
  have "(\<lambda>l. map_option (\<lambda>c. c) (breakdown st l)) = breakdown st"
    by (rule ext) (simp add: option.map_ident)
  then show ?case by (simp add: tier_count_def details_of_def)
next
  case (Cons t ts)
  note step = score_ticket_step[of st pf pb t, OF Cons.prems]
  show ?case
  proof (cases "ticket_tier pf pb t")
    case None
    then show ?thesis using step Cons.IH[of st] Cons.prems
      by (simp add: tier_count_def details_of_def tier_amount_def)
  next
    case (Some l)
    let ?st' = "\<lparr> total_prize = total_prize st + tier_amount (Some l),
                 breakdown = (breakdown st)(l \<mapsto> the (breakdown st l) + 1),
                 winning_tickets_details = winning_tickets_details st @ [detail_of t l] \<rparr>"
    have cov: "\<And>k. 1 \<le> k \<Longrightarrow> k \<le> 9 \<Longrightarrow> breakdown ?st' k \<noteq> None"
      using Cons.prems by simp
    from Some have "spec_tier (hits (fst t) pf) (hits (snd t) pb) = Some l"
      by (simp add: ticket_tier_def)
    from spec_tier_range[OF this] Cons.prems obtain c where c: "breakdown st l = Some c"
      by blast
    have bd: "(\<lambda>k. map_option (\<lambda>c. c + tier_count pf pb ts k) (breakdown ?st' k)) =
              (\<lambda>k. map_option (\<lambda>c. c + tier_count pf pb (t # ts) k) (breakdown st k))"
      using Some c by (auto simp: tier_count_def fun_eq_iff)
    show ?thesis using step Some Cons.IH[of ?st', OF cov] bd
      by (simp add: details_of_def)
  qed
qed

lemma initial_breakdown:
  "breakdown initial_prize_state = (\<lambda>l. if l \<in> set tiers then Some 0 else None)"
  by (rule ext) (simp add: initial_prize_state_def PRIZE_TABLE_def tiers_def)

lemma tiers_range: "l \<in> set tiers \<longleftrightarrow> 1 \<le> l \<and> l \<le> 9"
  by (auto simp: tiers_def)

lemma calculate_prize_result:
  "calculate_prize ts pf pb =
     Inr \<lparr> total_prize = (\<Sum>t\<leftarrow>ts. tier_amount (ticket_tier pf pb t)),
           breakdown = (\<lambda>l. if l \<in> set tiers then Some (tier_count pf pb ts l) else None),
           winning_tickets_details = details_of pf pb ts \<rparr>"
proof -
  have cov: "\<And>l. 1 \<le> l \<Longrightarrow> l \<le> 9 \<Longrightarrow> breakdown initial_prize_state l \<noteq> None"
    by (simp add: initial_breakdown tiers_range)
  have "(\<lambda>l. map_option (\<lambda>c. c + tier_count pf pb ts l) (breakdown initial_prize_state l)) =
        (\<lambda>l. if l \<in> set tiers then Some (tier_count pf pb ts l) else None)"
    by (rule ext) (simp add: initial_breakdown)
  then show ?thesis
    using score_tickets_general[of initial_prize_state pf pb ts, OF cov]
    by (simp add: calculate_prize_def initial_prize_state_def)
qed

lemma ticket_tier_in_tiers: "ticket_tier pf pb t = Some l \<Longrightarrow> l \<in> set tiers"
  using spec_tier_range[of "hits (fst t) pf" "hits (snd t) pb" l]
  by (simp add: ticket_tier_def tiers_range)

lemma sum_tiers_single:
  "l \<in> set tiers \<Longrightarrow> (\<Sum>k\<leftarrow>tiers. (if l = k then f k else 0)) = (f l :: 'a :: comm_monoid_add)"
  by (auto simp: tiers_def)

lemma total_by_tier:
  "(\<Sum>t\<leftarrow>ts. tier_amount (ticket_tier pf pb t)) =
   (\<Sum>l\<leftarrow>tiers. int (tier_count pf pb ts l) * tier_amount (Some l))"
proof (induction ts)
  case Nil
  then show ?case by (simp add: tier_count_def)
next
  case (Cons t ts)
  have split: "\<And>l. int (tier_count pf pb (t # ts) l) * tier_amount (Some l) =
      (if ticket_tier pf pb t = Some l then tier_amount (Some l) else 0) +
      int (tier_count pf pb ts l) * tier_amount (Some l)"
    by (simp add: tier_count_def algebra_simps)
  have "(\<Sum>l\<leftarrow>tiers. if ticket_tier pf pb t = Some l then tier_amount (Some l) else 0) =
        tier_amount (ticket_tier pf pb t)"
  proof (cases "ticket_tier pf pb t")
    case None
    then show ?thesis by (simp add: tier_amount_def)
  next
    case (Some l)
    from sum_tiers_single[OF ticket_tier_in_tiers[OF Some], of "\<lambda>k. tier_amount (Some k)"]
    show ?thesis using Some by simp
  qed
  then show ?case using Cons.IH
    by (simp add: split sum_list_addf)
qed

lemma winners_by_tier:
  "length (details_of pf pb ts) = (\<Sum>l\<leftarrow>tiers. tier_count pf pb ts l)"
proof (induction ts)
  case Nil
  then show ?case by (simp add: tier_count_def details_of_def)
next
  case (Cons t ts)
  have split: "\<And>l. tier_count pf pb (t # ts) l =
      (if ticket_tier pf pb t = Some l then 1 else 0) + tier_count pf pb ts l"
    by (simp add: tier_count_def)
  have "(\<Sum>l\<leftarrow>tiers. if ticket_tier pf pb t = Some l then 1 else 0) =
        (case ticket_tier pf pb t of None \<Rightarrow> 0 | Some l \<Rightarrow> (1::nat))"
  proof (cases "ticket_tier pf pb t")
    case None
    then show ?thesis by simp
  next
    case (Some l)
    from sum_tiers_single[OF ticket_tier_in_tiers[OF Some], of "\<lambda>k. 1::nat"]
    show ?thesis using Some by simp
  qed
  then show ?case using Cons.IH
    by (simp add: split sum_list_addf details_of_def split: option.splits)
qed


text \<open>The three examples of the specification, and pairs outside the table.\<close>

lemma calculate_prize_examples:
  "ticket_tier [1, 2, 3, 4, 5] [6, 7] ([1, 2, 3, 4, 5], [6, 7]) = Some 1"
  "ticket_tier [1, 2, 3, 4, 5] [6, 7] ([1, 2, 3, 4, 5], [6, 8]) = Some 2"
  "ticket_tier [1, 2, 3, 4, 5] [6, 7] ([1, 2, 3, 9, 10], [6, 7]) = Some 6"
  "ticket_tier [1, 2, 3, 4, 5] [6, 7] ([1, 2, 13, 9, 10], [6, 8]) = Some 9"
  "ticket_tier [1, 2, 3, 4, 5] [6, 7] ([1, 2, 13, 9, 10], [9, 8]) = None"
  "ticket_tier [1, 2, 3, 4, 5] [6, 7] ([1, 12, 13, 9, 10], [6, 8]) = None"
  by (simp_all add: ticket_tier_def hits_def spec_tier_def spec_tier_table_def)

text \<open>
  Claim C3. For every ticket list and winning draw, \<open>calculate_prize\<close> returns a state whose
  total is the sum over the tickets of the amount of their tier in \<open>PRIZE_TABLE\<close> (a ticket
  with no tier adds 0); the amounts are 10,000,000, 300,000, 10,000, 3,000, 300, 200, 100,
  15 and 5 for the tiers 1 to 9; the breakdown has exactly the keys 1 to 9, each with the
  number of tickets of that tier (0 when there is none); the total is the sum over the
  tiers of the breakdown's count times the amount; and the winners' list has as many
  elements as the breakdown's counts add up to.
\<close>

theorem calculate_prize_totals:
  "\<exists>st. calculate_prize tickets prize_front prize_back = Inr st
     \<and> total_prize st = (\<Sum>t\<leftarrow>tickets. tier_amount (ticket_tier prize_front prize_back t))
     \<and> map (\<lambda>l. tier_amount (Some l)) [1, 2, 3, 4, 5, 6, 7, 8, 9] =
         [10000000, 300000, 10000, 3000, 300, 200, 100, 15, 5]
     \<and> dom (breakdown st) = {1, 2, 3, 4, 5, 6, 7, 8, 9}
     \<and> map (breakdown st) [1, 2, 3, 4, 5, 6, 7, 8, 9] =
         map (\<lambda>l. Some (tier_count prize_front prize_back tickets l)) [1, 2, 3, 4, 5, 6, 7, 8, 9]
     \<and> total_prize st =
         (\<Sum>l\<leftarrow>[1, 2, 3, 4, 5, 6, 7, 8, 9]. int (the (breakdown st l)) * tier_amount (Some l))
     \<and> length (winning_tickets_details st) =
         (\<Sum>l\<leftarrow>[1, 2, 3, 4, 5, 6, 7, 8, 9]. the (breakdown st l))"
proof -
  let ?st = "\<lparr> total_prize = (\<Sum>t\<leftarrow>tickets. tier_amount (ticket_tier prize_front prize_back t)),
               breakdown = (\<lambda>l. if l \<in> set tiers
                                 then Some (tier_count prize_front prize_back tickets l)
                                 else None),
               winning_tickets_details = details_of prize_front prize_back tickets \<rparr>"
  have res: "calculate_prize tickets prize_front prize_back = Inr ?st"
    by (rule calculate_prize_result)
  have amounts: "map (\<lambda>l. tier_amount (Some l)) [1, 2, 3, 4, 5, 6, 7, 8, 9] =
      [10000000, 300000, 10000, 3000, 300, 200, 100, 15, 5]"
    by (simp add: tier_amount_def PRIZE_TABLE_def)
  have keys: "dom (breakdown ?st) = {1, 2, 3, 4, 5, 6, 7, 8, 9}"
    by (auto simp: tiers_def dom_def)
  have counts: "map (breakdown ?st) [1, 2, 3, 4, 5, 6, 7, 8, 9] =
      map (\<lambda>l. Some (tier_count prize_front prize_back tickets l)) [1, 2, 3, 4, 5, 6, 7, 8, 9]"
    by (simp add: tiers_def)
  have total: "total_prize ?st =
      (\<Sum>l\<leftarrow>[1, 2, 3, 4, 5, 6, 7, 8, 9]. int (the (breakdown ?st l)) * tier_amount (Some l))"
    using total_by_tier[of prize_front prize_back tickets] by (simp add: tiers_def)
  have winners: "length (winning_tickets_details ?st) =
      (\<Sum>l\<leftarrow>[1, 2, 3, 4, 5, 6, 7, 8, 9]. the (breakdown ?st l))"
    using winners_by_tier[of prize_front prize_back tickets] by (simp add: tiers_def)
  show ?thesis
    using res amounts keys counts total winners by (intro exI[of _ ?st]) simp
qed

section \<open>Proofs: expansion of a complex pool\<close>

lemma length_combinations: "length (combinations xs k) = length xs choose k"
  by (induction xs k rule: combinations.induct) auto

lemma length_in_combinations: "c \<in> set (combinations xs k) \<Longrightarrow> length c = k"
  by (induction xs k arbitrary: c rule: combinations.induct) auto

lemma set_combinations: "set (combinations xs k) = {ys. subseq ys xs \<and> length ys = k}"
proof (induction xs k rule: combinations.induct)
  case (1 xs)
  then show ?case by auto
next
  case (2 k)
  then show ?case by auto
next
  case (3 x xs k)
  show ?case
  proof (rule set_eqI)
    fix ys
    show "ys \<in> set (combinations (x # xs) (Suc k)) \<longleftrightarrow>
          ys \<in> {ys. subseq ys (x # xs) \<and> length ys = Suc k}"
    proof (cases ys)
      case Nil
      then show ?thesis using length_in_combinations[of ys "x # xs" "Suc k"] by auto
    next
      case (Cons y ys')
      show ?thesis
        using 3 Cons by (auto simp: subseq_Cons2_iff dest: subseq_Cons')
    qed
  qed
qed


lemma combinations_too_long: "length xs < k \<Longrightarrow> combinations xs k = []"
  using length_combinations[of xs k] by (simp add: binomial_eq_0)

lemma combinations_all: "combinations xs (length xs) = [xs]"
  by (induction xs) (auto simp: combinations_too_long)

lemma subseq_set_mono: "subseq ys xs \<Longrightarrow> set ys \<subseteq> set xs"
  by (auto dest: list_emb_set)

lemma subseq_distinct_filter:
  "distinct xs \<Longrightarrow> subseq ys xs \<Longrightarrow> ys = filter (\<lambda>x. x \<in> set ys) xs"
proof (induction xs arbitrary: ys)
  case Nil
  then show ?case by simp
next
  case (Cons x xs)
  show ?case
  proof (cases ys)
    case Nil
    then show ?thesis by simp
  next
    case (Cons y ys')
    show ?thesis
    proof (cases "x = y")
      case True
      with Cons Cons.prems have sub: "subseq ys' xs" by simp
      from Cons.prems have "x \<notin> set xs" "distinct xs" by auto
      with sub have "x \<notin> set ys'" using subseq_set_mono by blast
      have "ys' = filter (\<lambda>a. a \<in> set ys') xs"
        using Cons.IH[OF \<open>distinct xs\<close> sub] .
      moreover have "filter (\<lambda>a. a \<in> set ys') xs = filter (\<lambda>a. a = x \<or> a \<in> set ys') xs"
        using \<open>x \<notin> set xs\<close> by (intro filter_cong) auto
      ultimately show ?thesis using Cons True by simp
    next
      case False
      with Cons Cons.prems have sub: "subseq ys xs" by (simp add: subseq_Cons2_iff)
      from Cons.prems have "x \<notin> set xs" "distinct xs" by auto
      with sub have "x \<notin> set ys" using subseq_set_mono by blast
      then show ?thesis using Cons.IH[OF \<open>distinct xs\<close> sub] by simp
    qed
  qed
qed

lemma distinct_combinations: "distinct xs \<Longrightarrow> distinct (combinations xs k)"
proof (induction xs k rule: combinations.induct)
  case (3 x xs k)
  have "\<And>c. c \<in> set (combinations xs (Suc k)) \<Longrightarrow> x \<notin> set c"
    using 3(3) subseq_set_mono by (fastforce simp: set_combinations)
  then have "set (map ((#) x) (combinations xs k)) \<inter> set (combinations xs (Suc k)) = {}"
    by fastforce
  then show ?case using 3 by (simp add: distinct_map)
qed simp_all

lemma distinct_sorted_combinations:
  fixes xs :: "'a :: linorder list"
  assumes "distinct xs"
  shows "distinct (map sort (combinations xs k))"
proof -
  have "inj_on sort (set (combinations xs k))"
  proof (rule inj_onI)
    fix c d
    assume c: "c \<in> set (combinations xs k)" and d: "d \<in> set (combinations xs k)"
      and eq: "sort c = sort d"
    from eq have "set c = set d" by (metis set_sort)
    moreover from c d have "subseq c xs" "subseq d xs" by (auto simp: set_combinations)
    ultimately show "c = d"
      using subseq_distinct_filter[OF assms, of c] subseq_distinct_filter[OF assms, of d]
      by simp
  qed
  then show ?thesis using distinct_combinations[OF assms] by (simp add: distinct_map)
qed

lemma product_map:
  "List.product (map f xs) (map g ys) = concat (map (\<lambda>x. map (\<lambda>y. (f x, g y)) ys) xs)"
  by (induction xs) (simp_all add: comp_def)

lemma expand_tickets_product:
  "expand_tickets fronts backs =
     List.product (map sort (combinations fronts 5)) (map sort (combinations backs 2))"
  by (simp add: expand_tickets_def product_map)

lemma binomial_step: "(n choose i) * (n - i) div Suc i = n choose Suc i"
proof -
  have "Suc i * (n choose Suc i) = n * (n - 1 choose i)"
    by (rule binomial_absorption)
  moreover have "(n - i) * (n choose i) = n * (n - 1 choose i)"
    by (rule binomial_absorb_comp)
  ultimately have "(n choose i) * (n - i) = (n choose Suc i) * Suc i"
    by (simp only: mult.commute)
  then have "(n choose i) * (n - i) div Suc i = (n choose Suc i) * Suc i div Suc i"
    by (rule arg_cong)
  also have "\<dots> = n choose Suc i"
    by (rule nonzero_mult_div_cancel_right) simp
  finally show ?thesis .
qed

lemma combinations_count_loop_choose:
  "k \<le> n \<Longrightarrow> i \<le> k \<Longrightarrow> combinations_count_loop n [i..<k] (n choose i) = n choose k"
proof (induction "k - i" arbitrary: i)
  case 0
  then show ?case by simp
next
  case (Suc d)
  then have "i < k" by simp
  then have upt: "[i..<k] = i # [Suc i..<k]" by (simp add: upt_conv_Cons)
  have "i < n" using \<open>i < k\<close> Suc.prems by simp
  show ?case using Suc.hyps(1)[of "Suc i"] Suc.hyps(2) Suc.prems \<open>i < k\<close>
    by (simp add: upt binomial_step)
qed

lemma combinations_count_choose: "combinations_count n k = n choose k"
proof -
  have loop: "\<And>j. j \<le> n \<Longrightarrow> combinations_count_loop n [0..<j] 1 = n choose j"
    using combinations_count_loop_choose[of _ n 0] by simp
  show ?thesis
  proof (cases "k > n")
    case True
    then show ?thesis by (simp add: combinations_count_def binomial_eq_0)
  next
    case False
    then have "k \<le> n" by simp
    then show ?thesis
      using loop[of k] loop[of "n - k"] binomial_symmetric[of k n]
      by (auto simp: combinations_count_def Let_def)
  qed
qed

lemma generate_complex_tickets_under_cap:
  assumes "5 \<le> length fronts" "2 \<le> length backs"
    and "(length fronts choose 5) * (length backs choose 2) \<le> 20000"
  shows "generate_complex_tickets math_comb fronts backs = expand_tickets fronts backs"
  using assms
  by (simp add: generate_complex_tickets_def comb_def combinations_count_choose
      max_tickets_limit_def)

lemma length_expand_tickets:
  "length (expand_tickets fronts backs) = (length fronts choose 5) * (length backs choose 2)"
  by (simp add: expand_tickets_product length_combinations)

lemma set_expand_tickets:
  "set (expand_tickets fronts backs) =
     {(sort f, sort b) | f b. subseq f fronts \<and> length f = 5 \<and> subseq b backs \<and> length b = 2}"
  by (auto simp: expand_tickets_product set_combinations)

lemma distinct_expand_tickets:
  "distinct fronts \<Longrightarrow> distinct backs \<Longrightarrow> distinct (expand_tickets fronts backs)"
  by (simp add: expand_tickets_product distinct_product distinct_sorted_combinations)

lemma expand_tickets_minimal:
  "length fronts = 5 \<Longrightarrow> length backs = 2 \<Longrightarrow>
   expand_tickets fronts backs = [(sort fronts, sort backs)]"
  using combinations_all[of fronts] combinations_all[of backs]
  by (simp add: expand_tickets_def)

lemma choose_6_5_3_2: "(6 choose 5) * (3 choose 2) = (18::nat)"
  by code_simp

text \<open>
  Claim C2 (amended). For every front list with at least 5 elements and back list with at
  least 2 elements whose count C(|fronts|,5) * C(|backs|,2) is at most 20,000, and on
  either branch of the import, \<open>generate_complex_tickets\<close> returns exactly that many
  tickets; the tickets are exactly the pairs (sorted f, sorted b) for the 5-element
  subsequences f of the fronts and the 2-element subsequences b of the backs, so no choice is
  omitted; every ticket has a sorted front of 5 and a sorted back of 2; 6 fronts and 3
  backs give 18 tickets; 5 fronts and 2 backs give the single ticket of the sorted inputs.
  The tickets are pairwise distinct when the front list and the back list have no
  repeated element.
\<close>

theorem generate_complex_tickets_complete:
  assumes "5 \<le> length fronts" and "2 \<le> length backs"
    and "(length fronts choose 5) * (length backs choose 2) \<le> 20000"
  shows "length (generate_complex_tickets math_comb fronts backs) =
           (length fronts choose 5) * (length backs choose 2)
       \<and> set (generate_complex_tickets math_comb fronts backs) =
           {(sort f, sort b) | f b.
              subseq f fronts \<and> length f = 5 \<and> subseq b backs \<and> length b = 2}
       \<and> (\<forall>t \<in> set (generate_complex_tickets math_comb fronts backs).
             sorted (fst t) \<and> length (fst t) = 5 \<and> sorted (snd t) \<and> length (snd t) = 2)
       \<and> (distinct fronts \<and> distinct backs \<longrightarrow>
             distinct (generate_complex_tickets math_comb fronts backs))
       \<and> (length fronts = 6 \<and> length backs = 3 \<longrightarrow>
             length (generate_complex_tickets math_comb fronts backs) = 18)
       \<and> (length fronts = 5 \<and> length backs = 2 \<longrightarrow>
             generate_complex_tickets math_comb fronts backs = [(sort fronts, sort backs)])"
proof -
  note eq = generate_complex_tickets_under_cap[OF assms, of math_comb]
  have shape: "\<forall>t \<in> set (expand_tickets fronts backs).
      sorted (fst t) \<and> length (fst t) = 5 \<and> sorted (snd t) \<and> length (snd t) = 2"
    by (auto simp: set_expand_tickets)
  have six: "length fronts = 6 \<and> length backs = 3 \<longrightarrow> length (expand_tickets fronts backs) = 18"
    by (simp add: length_expand_tickets choose_6_5_3_2)
  show ?thesis
    unfolding eq
    using shape six length_expand_tickets[of fronts backs] set_expand_tickets[of fronts backs]
      distinct_expand_tickets[of fronts backs] expand_tickets_minimal[of fronts backs]
    by blast
qed

lemma small_binomials:
  "(6::nat) choose 5 = 6" "(3::nat) choose 2 = 3" "(5::nat) choose 5 = 1" "(2::nat) choose 2 = 1"
  by (simp_all add: numeral_eq_Suc)

theorem generate_complex_tickets_complete_witness:
  "length (generate_complex_tickets True [6, 5, 4, 3, 2, 1] [3, 1, 2]) = 18
   \<and> distinct (generate_complex_tickets True [6, 5, 4, 3, 2, 1] [3, 1, 2])
   \<and> generate_complex_tickets False [9, 7, 5, 3, 1] [4, 2] = [([1, 3, 5, 7, 9], [2, 4])]"
proof -
  have la: "length [6, 5, 4, 3, 2, 1 :: int] = 6 \<and> length [3, 1, 2 :: int] = 3"
    and da: "distinct [6, 5, 4, 3, 2, 1 :: int] \<and> distinct [3, 1, 2 :: int]"
    and lb: "length [9, 7, 5, 3, 1 :: int] = 5 \<and> length [4, 2 :: int] = 2"
    by simp_all
  have a: "5 \<le> length [6, 5, 4, 3, 2, 1 :: int]" "2 \<le> length [3, 1, 2 :: int]"
    "(length [6, 5, 4, 3, 2, 1 :: int] choose 5) * (length [3, 1, 2 :: int] choose 2) \<le> 20000"
    unfolding la[THEN conjunct1] la[THEN conjunct2] small_binomials by simp_all
  have b: "5 \<le> length [9, 7, 5, 3, 1 :: int]" "2 \<le> length [4, 2 :: int]"
    "(length [9, 7, 5, 3, 1 :: int] choose 5) * (length [4, 2 :: int] choose 2) \<le> 20000"
    unfolding lb[THEN conjunct1] lb[THEN conjunct2] small_binomials by simp_all
  note wa = generate_complex_tickets_complete[OF a, of True]
  note wb = generate_complex_tickets_complete[OF b, of False]
  have "length (generate_complex_tickets True [6, 5, 4, 3, 2, 1] [3, 1, 2]) = 18"
    using wa la by blast
  moreover have "distinct (generate_complex_tickets True [6, 5, 4, 3, 2, 1] [3, 1, 2])"
    using wa da by blast
  moreover have "generate_complex_tickets False [9, 7, 5, 3, 1] [4, 2] =
      [(sort [9, 7, 5, 3, 1], sort [4, 2])]"
    using wb lb by blast
  ultimately show ?thesis by simp
qed

text \<open>
  Claim C2 as stated fails where a list repeats a number: the fronts 1, 1, 2, 3, 4, 5 and
  the backs 1, 2, 3 give 18 tickets that are not distinct (leaving out the first 1 and
  leaving out the second 1 give the same ticket).
\<close>

theorem generate_complex_tickets_duplicates:
  "length [1, 1, 2, 3, 4, 5 :: int] = 6 \<and> length [1, 2, 3 :: int] = 3
   \<and> length (generate_complex_tickets True [1, 1, 2, 3, 4, 5] [1, 2, 3]) = 18
   \<and> \<not> distinct (generate_complex_tickets True [1, 1, 2, 3, 4, 5] [1, 2, 3])"
proof -
  have c: "combinations [1, 1, 2, 3, 4, 5 :: int] 5 =
      [[1, 1, 2, 3, 4], [1, 1, 2, 3, 5], [1, 1, 2, 4, 5], [1, 1, 3, 4, 5], [1, 2, 3, 4, 5],
       [1, 2, 3, 4, 5]]"
    by (simp add: numeral_eq_Suc)
  have d: "combinations [1, 2, 3 :: int] 2 = [[1, 2], [1, 3], [2, 3]]"
    by (simp add: numeral_eq_Suc)
  have g: "generate_complex_tickets True [1, 1, 2, 3, 4, 5] [1, 2, 3] =
      expand_tickets [1, 1, 2, 3, 4, 5] [1, 2, 3]"
  proof -
    have l: "length [1, 1, 2, 3, 4, 5 :: int] = 6" "length [1, 2, 3 :: int] = 3" by simp_all
    show ?thesis
      unfolding generate_complex_tickets_def comb_def l small_binomials max_tickets_limit_def
      by simp
  qed
  show ?thesis
    unfolding g expand_tickets_def c d by simp
qed

text \<open>
  Claim C4. \<open>generate_complex_tickets\<close> returns the empty list exactly when the front list
  has fewer than 5 elements, or the back list has fewer than 2, or the count
  C(|fronts|,5) * C(|backs|,2) computed beforehand exceeds 20,000; in every other case it
  returns the full expansion, whose length is that count: never a part of it.
\<close>

theorem generate_complex_tickets_empty_iff:
  "(generate_complex_tickets math_comb fronts backs = [] \<longleftrightarrow>
      length fronts < 5 \<or> length backs < 2
      \<or> (length fronts choose 5) * (length backs choose 2) > 20000)
   \<and> (generate_complex_tickets math_comb fronts backs = []
      \<or> generate_complex_tickets math_comb fronts backs = expand_tickets fronts backs
        \<and> length (expand_tickets fronts backs) =
            (length fronts choose 5) * (length backs choose 2))"
proof (cases "length fronts < 5 \<or> length backs < 2
      \<or> (length fronts choose 5) * (length backs choose 2) > 20000")
  case True
  then show ?thesis
    by (auto simp: generate_complex_tickets_def comb_def combinations_count_choose
        max_tickets_limit_def)
next
  case False
  then have a: "5 \<le> length fronts" "2 \<le> length backs"
    "(length fronts choose 5) * (length backs choose 2) \<le> 20000" by auto
  from a have "0 < (length fronts choose 5) * (length backs choose 2)" by simp
  then have "expand_tickets fronts backs \<noteq> []"
    using length_expand_tickets[of fronts backs] by auto
  then show ?thesis
    using False generate_complex_tickets_under_cap[OF a, of math_comb]
      length_expand_tickets[of fronts backs]
    by simp
qed

section \<open>Proofs: draw records\<close>

























section \<open>Proofs: recommendations of a report\<close>



lemma sorted_ints_numbers:
  "sorted_ints g = (case numbers g of None \<Rightarrow> Inl ValueError | Some ns \<Rightarrow> Inr (sort ns))"
  by (simp add: sorted_ints_def numbers_def)

lemma rec_ticket_line_ticket: "rec_ticket groups = line_ticket groups"
  by (simp add: rec_ticket_def line_ticket_def sorted_ints_numbers split: option.splits)












lemmas report_eval =
  parse_recommendations_from_report_def example_report_def finditer_def rec_pattern_def
  complex_pattern_def complex_numbers_def rec_ticket_def sorted_ints_def split_ws_def
  with_group_def is_num_char_def List.map_filter_def
  py_int_def strip_def is_space_def is_digit_def ascii_def

lemma parse_example:
  "parse_recommendations_from_report example_report =
     ([([1, 2, 3, 3, 99], [6, 6])], [1, 1, 2, 3, 4, 36], [0, 12, 12])"
  by (simp add: report_eval)








lemma rec_ticket_counts_only:
  "rec_ticket groups \<noteq> None \<longleftrightarrow>
     (\<exists>f b. numbers (groups ! 0) = Some f \<and> numbers (groups ! 1) = Some b
            \<and> length f = 5 \<and> length b = 2)"
  by (auto simp: rec_ticket_line_ticket line_ticket_def split: option.splits)

lemma example_complex_tickets:
  "generate_complex_tickets True [1, 1, 2, 3, 4, 36] [0, 12, 12] =
     expand_tickets [1, 1, 2, 3, 4, 36] [0, 12, 12]"
proof -
  have l: "length [1, 1, 2, 3, 4, 36 :: int] = 6" "length [0, 12, 12 :: int] = 3" by simp_all
  show ?thesis
    unfolding generate_complex_tickets_def comb_def l small_binomials max_tickets_limit_def
    by simp
qed

lemma example_expand:
  "expand_tickets [1, 1, 2, 3, 4, 36] [0, 12, 12] =
     [([1, 1, 2, 3, 4], [0, 12]), ([1, 1, 2, 3, 4], [0, 12]), ([1, 1, 2, 3, 4], [12, 12]),
      ([1, 1, 2, 3, 36], [0, 12]), ([1, 1, 2, 3, 36], [0, 12]), ([1, 1, 2, 3, 36], [12, 12]),
      ([1, 1, 2, 4, 36], [0, 12]), ([1, 1, 2, 4, 36], [0, 12]), ([1, 1, 2, 4, 36], [12, 12]),
      ([1, 1, 3, 4, 36], [0, 12]), ([1, 1, 3, 4, 36], [0, 12]), ([1, 1, 3, 4, 36], [12, 12]),
      ([1, 2, 3, 4, 36], [0, 12]), ([1, 2, 3, 4, 36], [0, 12]), ([1, 2, 3, 4, 36], [12, 12]),
      ([1, 2, 3, 4, 36], [0, 12]), ([1, 2, 3, 4, 36], [0, 12]), ([1, 2, 3, 4, 36], [12, 12])]"
proof -
  have c: "combinations [1, 1, 2, 3, 4, 36 :: int] 5 =
      [[1, 1, 2, 3, 4], [1, 1, 2, 3, 36], [1, 1, 2, 4, 36], [1, 1, 3, 4, 36], [1, 2, 3, 4, 36],
       [1, 2, 3, 4, 36]]"
    by (simp add: numeral_eq_Suc)
  have d: "combinations [0, 12, 12 :: int] 2 = [[0, 12], [0, 12], [12, 12]]"
    by (simp add: numeral_eq_Suc)
  show ?thesis unfolding expand_tickets_def c d by simp
qed

text \<open>
  Claim C10. There is a report text for which \<open>parse_recommendations_from_report\<close>
  returns a ticket with the front numbers 1, 2, 3, 3, 99 and the back numbers 6, 6, and the
  pools 1, 1, 2, 3, 4, 36 and 0, 12, 12: numbers out of range and repeated numbers. They
  go to \<open>calculate_prize\<close> as they are: against the draw 1, 2, 3, 4, 5 and 6, 7 that ticket
  wins tier 8 and 15, and the tickets of the pools win 945. A match becomes a ticket
  exactly when its groups parse to 5 and 2 numbers: only the counts are checked.
\<close>

theorem parse_recommendations_from_report_unvalidated:
  "parse_recommendations_from_report example_report =
     ([([1, 2, 3, 3, 99], [6, 6])], [1, 1, 2, 3, 4, 36], [0, 12, 12])
   \<and> map_sum id winning_tickets_details
        (fst (score_recommendations example_report [1, 2, 3, 4, 5] [6, 7])) =
       Inr [\<lparr> wt_front = [1, 2, 3, 3, 99], wt_back = [6, 6], wt_level = 8 \<rparr>]
   \<and> map_sum id total_prize (fst (score_recommendations example_report [1, 2, 3, 4, 5] [6, 7])) =
       Inr 15
   \<and> map_sum id total_prize (snd (score_recommendations example_report [1, 2, 3, 4, 5] [6, 7])) =
       Inr 945
   \<and> (rec_ticket groups \<noteq> None \<longleftrightarrow>
        (\<exists>f b. numbers (groups ! 0) = Some f \<and> numbers (groups ! 1) = Some b
               \<and> length f = 5 \<and> length b = 2))"
proof -
  have s: "score_recommendations example_report [1, 2, 3, 4, 5] [6, 7] =
      (calculate_prize [([1, 2, 3, 3, 99], [6, 6])] [1, 2, 3, 4, 5] [6, 7],
       calculate_prize (expand_tickets [1, 1, 2, 3, 4, 36] [0, 12, 12]) [1, 2, 3, 4, 5] [6, 7])"
    by (simp add: score_recommendations_def parse_example example_complex_tickets)
  have t: "ticket_tier [1, 2, 3, 4, 5] [6, 7] ([1, 2, 3, 3, 99], [6, 6]) = Some 8"
    by (simp add: ticket_tier_def hits_def spec_tier_def spec_tier_table_def)
  have a: "map_sum id winning_tickets_details
        (fst (score_recommendations example_report [1, 2, 3, 4, 5] [6, 7])) =
       Inr [\<lparr> wt_front = [1, 2, 3, 3, 99], wt_back = [6, 6], wt_level = 8 \<rparr>]"
    by (simp add: s calculate_prize_result details_of_def t detail_of_def)
  have b: "map_sum id total_prize (fst (score_recommendations example_report [1, 2, 3, 4, 5] [6, 7])) =
       Inr 15"
    by (simp add: s calculate_prize_result t tier_amount_def PRIZE_TABLE_def)
  have c: "map_sum id total_prize (snd (score_recommendations example_report [1, 2, 3, 4, 5] [6, 7])) =
       Inr 945"
    by (simp add: s calculate_prize_result example_expand ticket_tier_def hits_def spec_tier_def
        spec_tier_table_def tier_amount_def PRIZE_TABLE_def)
  show ?thesis using parse_example a b c rec_ticket_counts_only[of groups] by blast
qed

section \<open>Proofs: finding the report of a period\<close>















end
